theory Spec2Isabelle
  imports Main
begin

section \<open>Data model\<close>

text \<open>
  The machine workflow of \<^verbatim>\<open>src/handler/api.ts\<close> (class \<^verbatim>\<open>ApiHandler\<close>).
  The handlers are translated from the source. The collaborators they call
  (\<^verbatim>\<open>MachineStateTable\<close>, \<^verbatim>\<open>DataCache\<close>, \<^verbatim>\<open>IdentityProviderClient\<close>,
  \<^verbatim>\<open>SmartMachineClient\<close>) and the types of \<^verbatim>\<open>model.ts\<close> and \<^verbatim>\<open>schema.ts\<close> are
  imported by the source but their files are not part of it; they are modelled
  from the interface contracts of the specification, each marked as such. Records
  are values: a cache entry is a snapshot of a record, as the specification has it.
\<close>

text \<open>Modelled from the spec: \<^verbatim>\<open>MachineStatus\<close> of \<^verbatim>\<open>database/schema.ts\<close>; the three
  statuses of the data model, which are also the only ones the handlers name.\<close>

datatype MachineStatus = AVAILABLE | AWAITING_DROPOFF | RUNNING

text \<open>Modelled from the spec: \<^verbatim>\<open>MachineStateDocument\<close> of \<^verbatim>\<open>database/schema.ts\<close>;
  \<open>currentJobId\<close> is absent (\<open>None\<close>) or a job id.\<close>

record MachineStateDocument =
  machineId :: string
  locationId :: string
  status :: MachineStatus
  currentJobId :: "string option"

text \<open>Modelled from the spec: \<^verbatim>\<open>HttpResponseCode\<close> of \<^verbatim>\<open>handler/model.ts\<close>; the five
  codes the handlers use.\<close>

datatype HttpResponseCode =
  OK | BAD_REQUEST | UNAUTHORIZED | NOT_FOUND | INTERNAL_SERVER_ERROR

text \<open>Modelled from the spec: \<^verbatim>\<open>RequestModel\<close> of \<^verbatim>\<open>handler/model.ts\<close> with the
  fields the handlers read (\<open>req_method\<close> is its \<^verbatim>\<open>method\<close>, \<open>req_locationId\<close> its
  \<^verbatim>\<open>locationId\<close>). \<open>handle\<close> casts the request to
  \<^verbatim>\<open>RequestMachineRequestModel\<close> without a check, so the two reserve fields
  belong to every request.\<close>

record RequestModel =
  req_method :: string
  path :: string
  token :: string
  req_locationId :: string
  jobId :: string

text \<open>The response object \<^verbatim>\<open>{statusCode, machine}\<close>; \<open>None\<close> stands for the
  \<^verbatim>\<open>undefined\<close> and the \<^verbatim>\<open>null\<close> of the source.\<close>

record MachineResponseModel =
  statusCode :: HttpResponseCode
  machine :: "MachineStateDocument option"

text \<open>What a call can throw: the object \<^verbatim>\<open>{statusCode, thrownMessage}\<close> of
  \<open>checkToken\<close>, or the failure of the machine controller, which the handlers do
  not catch.\<close>

datatype thrown = Thrown HttpResponseCode string | CollaboratorFailure

section \<open>The collaborators and the state they share\<close>

text \<open>Every call of a collaborator is recorded, in the order of the calls, so that
  a theorem can say which calls a handler makes and which it does not make.\<close>

datatype event =
    ValidateToken string
  | ListMachinesAtLocation string
  | GetMachine string
  | UpdateMachineStatus string MachineStatus
  | UpdateMachineJobId string string
  | CacheGet string
  | CachePut string "MachineStateDocument option"
  | StartCycle string

text \<open>The process-wide state: the records of the store in the order in which the
  store returns them, the entries of the single shared cache, and the calls made
  so far (the latest last).\<close>

record world =
  table :: "MachineStateDocument list"
  cache :: "string \<Rightarrow> MachineStateDocument option"
  trace :: "event list"

definition record_call :: "event \<Rightarrow> world \<Rightarrow> world" where
  "record_call e w = w\<lparr>trace := trace w @ [e]\<rparr>"

text \<open>Modelled from the spec: \<^verbatim>\<open>IdentityProviderClient.validateToken\<close>
  (\<^verbatim>\<open>validate(token) -> boolean\<close>); the answer of the identity provider is the
  parameter \<open>idp\<close>.\<close>

definition validateToken :: "(string \<Rightarrow> bool) \<Rightarrow> string \<Rightarrow> world \<Rightarrow> bool \<times> world" where
  "validateToken idp tok w = (idp tok, record_call (ValidateToken tok) w)"

text \<open>Modelled from the spec: \<^verbatim>\<open>MachineStateTable.listMachinesAtLocation\<close>
  (\<^verbatim>\<open>listByLocation(locationId) -> sequence of Machine Record\<close>): the records at
  the location, in store order.\<close>

definition listMachinesAtLocation ::
  "string \<Rightarrow> world \<Rightarrow> MachineStateDocument list \<times> world" where
  "listMachinesAtLocation loc w =
     (filter (\<lambda>m. locationId m = loc) (table w), record_call (ListMachinesAtLocation loc) w)"

text \<open>Modelled from the spec: \<^verbatim>\<open>MachineStateTable.getMachine\<close>
  (\<^verbatim>\<open>getById(machineId) -> Machine Record or absent\<close>): the store is keyed by the
  machine identifier.\<close>

definition getMachine :: "string \<Rightarrow> world \<Rightarrow> MachineStateDocument option \<times> world" where
  "getMachine mid w =
     (find (\<lambda>m. machineId m = mid) (table w), record_call (GetMachine mid) w)"

text \<open>The record that \<^verbatim>\<open>this.machines.get(machineId)\<close> finds is changed in place; a
  store without that key is left as it is.\<close>

primrec modify_machine ::
  "string \<Rightarrow> (MachineStateDocument \<Rightarrow> MachineStateDocument) \<Rightarrow>
   MachineStateDocument list \<Rightarrow> MachineStateDocument list" where
  "modify_machine mid f [] = []"
| "modify_machine mid f (m # ms) =
     (if machineId m = mid then f m # ms else m # modify_machine mid f ms)"

text \<open>\<^verbatim>\<open>MachineStateTable.updateMachineStatus\<close>, from the body quoted in the source:
  \<^verbatim>\<open>const machine = this.machines.get(machineId); if (machine) { machine.status = status; }\<close>\<close>

definition updateMachineStatus :: "string \<Rightarrow> MachineStatus \<Rightarrow> world \<Rightarrow> world" where
  "updateMachineStatus mid st w =
     record_call (UpdateMachineStatus mid st)
       (w\<lparr>table := modify_machine mid (\<lambda>m. m\<lparr>status := st\<rparr>) (table w)\<rparr>)"

text \<open>\<^verbatim>\<open>MachineStateTable.updateMachineJobId\<close>, from the body quoted in the source:
  \<^verbatim>\<open>const machine = this.machines.get(machineId); if (machine) { machine.currentJobId = jobId; }\<close>\<close>

definition updateMachineJobId :: "string \<Rightarrow> string \<Rightarrow> world \<Rightarrow> world" where
  "updateMachineJobId mid job w =
     record_call (UpdateMachineJobId mid job)
       (w\<lparr>table := modify_machine mid (\<lambda>m. m\<lparr>currentJobId := Some job\<rparr>) (table w)\<rparr>)"

text \<open>Modelled from the spec: \<^verbatim>\<open>DataCache.get\<close> (\<^verbatim>\<open>get(id) -> record-or-absent\<close>,
  never reads through).\<close>

definition DataCache_get :: "string \<Rightarrow> world \<Rightarrow> MachineStateDocument option \<times> world" where
  "DataCache_get mid w = (cache w mid, record_call (CacheGet mid) w)"

text \<open>Modelled from the spec: \<^verbatim>\<open>DataCache.put\<close> (\<^verbatim>\<open>put(id, record)\<close>, overwrites
  unconditionally). The handlers pass \<^verbatim>\<open>updated_machine!\<close>, which is
  \<^verbatim>\<open>undefined\<close> at run time when the store has no such record; a later \<open>get\<close>
  then yields \<^verbatim>\<open>undefined\<close>, which is \<open>None\<close> here.\<close>

definition DataCache_put :: "string \<Rightarrow> MachineStateDocument option \<Rightarrow> world \<Rightarrow> world" where
  "DataCache_put mid v w = record_call (CachePut mid v) (w\<lparr>cache := (cache w)(mid := v)\<rparr>)"

text \<open>Modelled from the spec: \<^verbatim>\<open>SmartMachineClient.startCycle\<close>
  (\<^verbatim>\<open>startCycle(machineId)\<close>, fails if the remote system rejects or is
  unreachable); \<open>smc mid\<close> tells whether the call returns (\<open>True\<close>) or throws.\<close>

definition startCycle :: "(string \<Rightarrow> bool) \<Rightarrow> string \<Rightarrow> world \<Rightarrow> bool \<times> world" where
  "startCycle smc mid w = (smc mid, record_call (StartCycle mid) w)"

section \<open>The handlers\<close>

definition checkToken :: "(string \<Rightarrow> bool) \<Rightarrow> string \<Rightarrow> world \<Rightarrow> (thrown + unit) \<times> world" where
  "checkToken idp tok w =
     (case validateToken idp tok w of
        (validity_of_token, w1) \<Rightarrow>
          if validity_of_token = True then (Inr (), w1)
          else (Inl (Thrown UNAUTHORIZED
                  (''ERROR: checkToken implementation flagged as unauthorized'' @ [CHR 0x0A])), w1))"

definition handleRequestMachine :: "RequestModel \<Rightarrow> world \<Rightarrow> MachineResponseModel \<times> world" where
  "handleRequestMachine request w =
     (let requested_location_ID = req_locationId request;
          requested_job_ID = jobId request
      in case listMachinesAtLocation requested_location_ID w of
        (machines_at_location, w1) \<Rightarrow>
          if length machines_at_location = 0
          then (\<lparr>statusCode = NOT_FOUND, machine = None\<rparr>, w1)
          else
            let available_machines_at_location =
                  filter (\<lambda>machine. status machine = AVAILABLE) machines_at_location
            in if length available_machines_at_location = 0
               then (\<lparr>statusCode = BAD_REQUEST, machine = None\<rparr>, w1)
               else
                 let first_available_machine = hd available_machines_at_location;
                     curr_machine_id = machineId first_available_machine;
                     w2 = updateMachineStatus curr_machine_id AWAITING_DROPOFF w1;
                     w3 = updateMachineJobId curr_machine_id requested_job_ID w2
                 in case getMachine curr_machine_id w3 of
                   (updated_machine, w4) \<Rightarrow>
                     (\<lparr>statusCode = OK, machine = updated_machine\<rparr>,
                      DataCache_put curr_machine_id updated_machine w4))"

definition handleGetMachine :: "string \<Rightarrow> world \<Rightarrow> MachineResponseModel \<times> world" where
  "handleGetMachine curr_machine_id w =
     (case DataCache_get curr_machine_id w of
        (Some curr_machine, w1) \<Rightarrow> (\<lparr>statusCode = OK, machine = Some curr_machine\<rparr>, w1)
      | (None, w1) \<Rightarrow>
          (case getMachine curr_machine_id w1 of
             (None, w2) \<Rightarrow> (\<lparr>statusCode = NOT_FOUND, machine = None\<rparr>, w2)
           | (Some curr_machine, w2) \<Rightarrow>
               (\<lparr>statusCode = OK, machine = Some curr_machine\<rparr>,
                DataCache_put curr_machine_id (Some curr_machine) w2)))"

definition handleStartMachine ::
  "(string \<Rightarrow> bool) \<Rightarrow> string \<Rightarrow> world \<Rightarrow> (thrown + MachineResponseModel) \<times> world" where
  "handleStartMachine smc curr_machine_id w =
     (case DataCache_get curr_machine_id w of
        (cached, w1) \<Rightarrow>
          (case (case cached of
                   None \<Rightarrow> getMachine curr_machine_id w1
                 | Some m \<Rightarrow> (Some m, w1)) of
             (None, w2) \<Rightarrow> (Inr \<lparr>statusCode = NOT_FOUND, machine = None\<rparr>, w2)
           | (Some curr_machine, w2) \<Rightarrow>
               if status curr_machine \<noteq> AWAITING_DROPOFF
               then (Inr \<lparr>statusCode = BAD_REQUEST, machine = None\<rparr>, w2)
               else
                 (case startCycle smc curr_machine_id w2 of
                    (False, w3) \<Rightarrow> (Inl CollaboratorFailure, w3)
                  | (True, w3) \<Rightarrow>
                      (case getMachine curr_machine_id
                              (updateMachineStatus curr_machine_id RUNNING w3) of
                         (updated_machine, w4) \<Rightarrow>
                           (Inr \<lparr>statusCode = OK, machine = updated_machine\<rparr>,
                            DataCache_put curr_machine_id updated_machine w4)))))"

subsection \<open>Routing\<close>

text \<open>The character class \<^verbatim>\<open>[a-zA-Z0-9-]\<close>.\<close>

definition idChar :: "char \<Rightarrow> bool" where
  "idChar c \<longleftrightarrow>
     c \<in> set (''abcdefghijklmnopqrstuvwxyz'' @ ''ABCDEFGHIJKLMNOPQRSTUVWXYZ'' @ ''0123456789'' @ ''-'')"

definition stripPrefix :: "string \<Rightarrow> string \<Rightarrow> string option" where
  "stripPrefix p s = (if take (length p) s = p then Some (drop (length p) s) else None)"

text \<open>\<^verbatim>\<open>path.match(/^\/machine\/([a-zA-Z0-9-]+)$/)\<close>: the captured group, or \<open>None\<close>
  for \<^verbatim>\<open>null\<close>.\<close>

definition getMachineMatch :: "string \<Rightarrow> string option" where
  "getMachineMatch p =
     (case stripPrefix ''/machine/'' p of
        None \<Rightarrow> None
      | Some rest \<Rightarrow> if rest \<noteq> [] \<and> list_all idChar rest then Some rest else None)"

text \<open>\<^verbatim>\<open>path.match(/^\/machine\/([a-zA-Z0-9-]+)\/start$/)\<close>: the group is the longest
  run of class characters, since the character after it has to be \<^verbatim>\<open>/\<close>, which
  is not in the class.\<close>

definition startMachineMatch :: "string \<Rightarrow> string option" where
  "startMachineMatch p =
     (case stripPrefix ''/machine/'' p of
        None \<Rightarrow> None
      | Some rest \<Rightarrow>
          if takeWhile idChar rest \<noteq> [] \<and> dropWhile idChar rest = ''/start''
          then Some (takeWhile idChar rest) else None)"

definition handle ::
  "(string \<Rightarrow> bool) \<Rightarrow> (string \<Rightarrow> bool) \<Rightarrow> RequestModel \<Rightarrow> world \<Rightarrow>
   (thrown + MachineResponseModel) \<times> world" where
  "handle idp smc request w =
     (case checkToken idp (token request) w of
        (Inl e, w1) \<Rightarrow> (Inl e, w1)
      | (Inr _, w1) \<Rightarrow>
          if req_method request = ''POST'' \<and> path request = ''/machine/request''
          then (case handleRequestMachine request w1 of (r, w2) \<Rightarrow> (Inr r, w2))
          else
            (case (req_method request = ''GET'', getMachineMatch (path request)) of
               (True, Some matched_id) \<Rightarrow>
                 (case handleGetMachine matched_id w1 of (r, w2) \<Rightarrow> (Inr r, w2))
             | _ \<Rightarrow>
                 (case (req_method request = ''POST'', startMachineMatch (path request)) of
                    (True, Some matched_id) \<Rightarrow> handleStartMachine smc matched_id w1
                  | _ \<Rightarrow> (Inr \<lparr>statusCode = INTERNAL_SERVER_ERROR, machine = None\<rparr>, w1))))"

section \<open>Observing the calls\<close>

text \<open>The machine ids for which the controller's \<^verbatim>\<open>startCycle\<close> has been called, in
  the order of the calls.\<close>

fun started :: "event \<Rightarrow> string list" where
  "started (StartCycle mid) = [mid]"
| "started _ = []"

definition controller_calls :: "event list \<Rightarrow> string list" where
  "controller_calls tr = concat (map started tr)"

text \<open>The cache is a view derived from the store: an id with a cache entry is the id of
  a record of the store. The handlers keep this (\<open>handle_backed\<close> below), and records
  are never deleted.\<close>

definition cache_backed :: "world \<Rightarrow> bool" where
  "cache_backed w \<longleftrightarrow> (\<forall>mid. cache w mid \<noteq> None \<longrightarrow> mid \<in> set (map machineId (table w)))"

section \<open>A concrete store\<close>

text \<open>Two locations: \<^verbatim>\<open>loc-1\<close> with two available machines (the scenario of the
  specification), \<^verbatim>\<open>loc-2\<close> with a running machine and a reserved one.\<close>

definition ex_m1 :: MachineStateDocument where
  "ex_m1 = \<lparr>machineId = ''m1'', locationId = ''loc-1'', status = AVAILABLE, currentJobId = None\<rparr>"

definition ex_m2 :: MachineStateDocument where
  "ex_m2 = \<lparr>machineId = ''m2'', locationId = ''loc-1'', status = AVAILABLE, currentJobId = None\<rparr>"

definition ex_m3 :: MachineStateDocument where
  "ex_m3 = \<lparr>machineId = ''m3'', locationId = ''loc-2'', status = RUNNING,
             currentJobId = Some ''j0''\<rparr>"

definition ex_m4 :: MachineStateDocument where
  "ex_m4 = \<lparr>machineId = ''m4'', locationId = ''loc-2'', status = AWAITING_DROPOFF,
             currentJobId = Some ''j2''\<rparr>"

definition ex_world :: world where
  "ex_world = \<lparr>table = [ex_m1, ex_m2, ex_m3, ex_m4], cache = (\<lambda>_. None), trace = []\<rparr>"

definition ex_cached :: world where
  "ex_cached = ex_world\<lparr>cache := [''m3'' \<mapsto> ex_m3, ''m4'' \<mapsto> ex_m4]\<rparr>"

definition ex_req :: "string \<Rightarrow> string \<Rightarrow> string \<Rightarrow> RequestModel" where
  "ex_req m p loc =
     \<lparr>req_method = m, path = p, token = ''secret'', req_locationId = loc, jobId = ''j1''\<rparr>"

definition ex_idp :: "string \<Rightarrow> bool" where
  "ex_idp tok \<longleftrightarrow> tok = ''secret''"

lemmas collab_defs = record_call_def validateToken_def listMachinesAtLocation_def getMachine_def
  updateMachineStatus_def updateMachineJobId_def DataCache_get_def DataCache_put_def
  startCycle_def

lemmas ex_defs = ex_m1_def ex_m2_def ex_m3_def ex_m4_def ex_world_def ex_cached_def ex_req_def
  ex_idp_def

section \<open>The store\<close>

lemma find_modify_same:
  assumes "\<And>x. machineId (f x) = machineId x"
  shows "find (\<lambda>x. machineId x = mid) (modify_machine mid f t) =
         map_option f (find (\<lambda>x. machineId x = mid) t)"
  using assms by (induction t) auto

lemma find_modify_other:
  assumes "\<And>x. machineId (f x) = machineId x" and "mid' \<noteq> mid"
  shows "find (\<lambda>x. machineId x = mid') (modify_machine mid f t) =
         find (\<lambda>x. machineId x = mid') t"
  using assms by (induction t) auto

lemma modify_modify:
  assumes "\<And>x. machineId (f x) = machineId x"
  shows "modify_machine mid g (modify_machine mid f t) = modify_machine mid (\<lambda>x. g (f x)) t"
  using assms by (induction t) auto

lemma modify_as_map:
  assumes "distinct (map machineId t)"
  shows "modify_machine mid f t = map (\<lambda>x. if machineId x = mid then f x else x) t"
  using assms
proof (induction t)
  case Nil
  then show ?case by simp
next
  case (Cons a t)
  then have "machineId a = mid \<Longrightarrow> map (\<lambda>x. if machineId x = mid then f x else x) t = t"
    by (intro map_idI) (auto simp: image_iff)
  with Cons show ?case by auto
qed

lemma map_machineId_modify:
  assumes "\<And>x. machineId (f x) = machineId x"
  shows "map machineId (modify_machine mid f t) = map machineId t"
  using assms by (induction t) auto

lemma find_member:
  assumes "distinct (map machineId t)" and "m \<in> set t"
  shows "find (\<lambda>x. machineId x = machineId m) t = Some m"
  using assms by (induction t) (auto simp: rev_image_eqI)

lemma unchanged_pairs:
  assumes "\<And>x. x \<in> set t \<Longrightarrow> g x = x"
  shows "filter (\<lambda>(a, b). a \<noteq> b) (zip t (map g t)) = []"
  using assms by (induction t) auto

lemma one_changed_pair:
  assumes "distinct (map machineId t)" and "m \<in> set t" and "f m \<noteq> m"
  shows "filter (\<lambda>(a, b). a \<noteq> b)
           (zip t (map (\<lambda>x. if machineId x = machineId m then f x else x) t)) = [(m, f m)]"
  using assms
proof (induction t)
  case Nil
  then show ?case by simp
next
  case (Cons a t)
  let ?g = "\<lambda>x. if machineId x = machineId m then f x else x"
  show ?case
  proof (cases "a = m")
    case True
    with Cons.prems(1) have "\<And>x. x \<in> set t \<Longrightarrow> ?g x = x"
      by (auto simp: image_iff)
    then have "filter (\<lambda>(a, b). a \<noteq> b) (zip t (map ?g t)) = []"
      by (rule unchanged_pairs)
    with True Cons.prems(3) show ?thesis by simp
  next
    case False
    with Cons.prems(2) have mt: "m \<in> set t" by simp
    with Cons.prems(1) have "machineId a \<noteq> machineId m"
      by (auto simp: image_iff)
    moreover have "filter (\<lambda>(a, b). a \<noteq> b) (zip t (map ?g t)) = [(m, f m)]"
      using Cons.IH Cons.prems(1,3) mt by simp
    ultimately show ?thesis by simp
  qed
qed

section \<open>What every request preserves\<close>

text \<open>No handler adds, removes or reorders records, so the machine ids of the store stay
  as they are (and stay distinct); and whatever a handler writes to the cache is the
  record it has just read from the store, so a cache that is backed by the store
  stays so.\<close>

lemma find_machine_in_ids:
  "find (\<lambda>m. machineId m = k) t = Some y \<Longrightarrow> k \<in> set (map machineId t)"
  by (induction t) (auto split: if_splits)

lemma handleRequestMachine_ids:
  "map machineId (table (snd (handleRequestMachine request w))) = map machineId (table w)"
  by (simp add: handleRequestMachine_def collab_defs Let_def map_machineId_modify)

lemma handleGetMachine_table:
  "table (snd (handleGetMachine mid w)) = table w"
  by (simp add: handleGetMachine_def collab_defs split: option.splits)

lemma handleStartMachine_ids:
  "map machineId (table (snd (handleStartMachine smc mid w))) = map machineId (table w)"
  by (simp add: handleStartMachine_def collab_defs map_machineId_modify
        split: option.splits bool.splits)

lemma handleRequestMachine_cache:
  assumes "cache (snd (handleRequestMachine request w)) k = Some y"
  shows "cache w k = Some y \<or>
         find (\<lambda>m. machineId m = k) (table (snd (handleRequestMachine request w))) = Some y"
  using assms
  by (simp add: handleRequestMachine_def collab_defs Let_def split: if_splits)

lemma handleGetMachine_cache:
  assumes "cache (snd (handleGetMachine mid w)) k = Some y"
  shows "cache w k = Some y \<or>
         find (\<lambda>m. machineId m = k) (table (snd (handleGetMachine mid w))) = Some y"
  using assms
  by (auto simp: handleGetMachine_def collab_defs split: option.splits if_splits)

lemma handleStartMachine_cache:
  assumes "cache (snd (handleStartMachine smc mid w)) k = Some y"
  shows "cache w k = Some y \<or>
         find (\<lambda>m. machineId m = k) (table (snd (handleStartMachine smc mid w))) = Some y"
  using assms
  by (auto simp: handleStartMachine_def collab_defs split: option.splits if_splits bool.splits)

lemma checkToken_world:
  "snd (checkToken idp tok w) = w\<lparr>trace := trace w @ [ValidateToken tok]\<rparr>"
  by (simp add: checkToken_def validateToken_def record_call_def)

lemma handle_world_rule:
  assumes "P (snd (checkToken idp (token request) w))"
      and "P (snd (handleRequestMachine request (snd (checkToken idp (token request) w))))"
      and "\<And>mid. P (snd (handleGetMachine mid (snd (checkToken idp (token request) w))))"
      and "\<And>mid. P (snd (handleStartMachine smc mid (snd (checkToken idp (token request) w))))"
  shows "P (snd (handle idp smc request w))"
  using assms
  by (simp add: handle_def prod.case_eq_if split: sum.splits option.splits bool.splits)

lemma handle_ids:
  "map machineId (table (snd (handle idp smc request w))) = map machineId (table w)"
  by (rule handle_world_rule [where P = "\<lambda>w'. map machineId (table w') = map machineId (table w)"])
    (simp_all add: checkToken_world handleRequestMachine_ids handleGetMachine_table
       handleStartMachine_ids)

lemma handle_cache:
  "cache (snd (handle idp smc request w)) k = Some y \<longrightarrow>
     cache w k = Some y \<or>
     find (\<lambda>m. machineId m = k) (table (snd (handle idp smc request w))) = Some y"
proof (rule handle_world_rule [where P = "\<lambda>w'. cache w' k = Some y \<longrightarrow>
     cache w k = Some y \<or> find (\<lambda>m. machineId m = k) (table w') = Some y"])
  let ?w1 = "snd (checkToken idp (token request) w)"
  have c: "cache ?w1 = cache w"
    by (simp add: checkToken_world)
  show "cache ?w1 k = Some y \<longrightarrow>
      cache w k = Some y \<or> find (\<lambda>m. machineId m = k) (table ?w1) = Some y"
    by (simp add: c)
  show "cache (snd (handleRequestMachine request ?w1)) k = Some y \<longrightarrow>
      cache w k = Some y \<or>
      find (\<lambda>m. machineId m = k) (table (snd (handleRequestMachine request ?w1))) = Some y"
    using handleRequestMachine_cache [of request ?w1 k y] by (simp only: c) blast
  show "cache (snd (handleGetMachine mid ?w1)) k = Some y \<longrightarrow>
      cache w k = Some y \<or>
      find (\<lambda>m. machineId m = k) (table (snd (handleGetMachine mid ?w1))) = Some y" for mid
    using handleGetMachine_cache [of mid ?w1 k y] by (simp only: c) blast
  show "cache (snd (handleStartMachine smc mid ?w1)) k = Some y \<longrightarrow>
      cache w k = Some y \<or>
      find (\<lambda>m. machineId m = k) (table (snd (handleStartMachine smc mid ?w1))) = Some y" for mid
    using handleStartMachine_cache [of smc mid ?w1 k y] by (simp only: c) blast
qed

lemma handle_backed:
  assumes "cache_backed w"
  shows "cache_backed (snd (handle idp smc request w))"
  unfolding cache_backed_def
proof (intro allI impI)
  fix k
  assume "cache (snd (handle idp smc request w)) k \<noteq> None"
  then obtain y where y: "cache (snd (handle idp smc request w)) k = Some y" by auto
  from handle_cache [of idp smc request w k y] y
  have "cache w k = Some y \<or>
      find (\<lambda>m. machineId m = k) (table (snd (handle idp smc request w))) = Some y"
    by blast
  then show "k \<in> set (map machineId (table (snd (handle idp smc request w))))"
  proof
    assume "cache w k = Some y"
    with assms have "k \<in> set (map machineId (table w))"
      by (simp add: cache_backed_def)
    then show ?thesis by (simp only: handle_ids)
  next
    assume "find (\<lambda>m. machineId m = k) (table (snd (handle idp smc request w))) = Some y"
    then show ?thesis by (rule find_machine_in_ids)
  qed
qed

lemma empty_cache_backed: "cache w = Map.empty \<Longrightarrow> cache_backed w"
  by (simp add: cache_backed_def)

lemma backed_machine_in_store:
  assumes "cache_backed w" and "cache w mid = Some m"
  shows "\<exists>s. fst (getMachine mid w) = Some s"
proof -
  from assms have "mid \<in> set (map machineId (table w))"
    by (simp add: cache_backed_def)
  then have "find (\<lambda>m. machineId m = mid) (table w) \<noteq> None"
    by (auto simp: find_None_iff)
  then show ?thesis by (simp add: getMachine_def)
qed

section \<open>The routes\<close>

lemma checkToken_accept:
  "idp tok \<Longrightarrow> checkToken idp tok w = (Inr (), w\<lparr>trace := trace w @ [ValidateToken tok]\<rparr>)"
  by (simp add: checkToken_def validateToken_def record_call_def)

lemma start_suffix_ne: "mid @ ''/start'' \<noteq> ''request''"
proof
  assume h: "mid @ ''/start'' = ''request''"
  then have "length (mid @ ''/start'') = length ''request''" by (rule arg_cong)
  then have l: "length mid = 1" by simp
  then obtain c where "mid = [c]" by (cases mid) auto
  with h show False by simp
qed

lemma getMachineMatch_bad:
  "\<not> list_all idChar mid \<Longrightarrow> getMachineMatch (''/machine/'' @ mid) = None"
  by (simp add: getMachineMatch_def stripPrefix_def)

lemma dropWhile_bad:
  assumes "\<not> list_all idChar mid"
  shows "dropWhile idChar (mid @ ''/start'') \<noteq> ''/start''"
proof -
  from assms obtain x where x: "x \<in> set mid" "\<not> idChar x"
    by (auto simp: list_all_iff)
  then have d: "dropWhile idChar (mid @ ''/start'') = dropWhile idChar mid @ ''/start''"
    by (rule dropWhile_append1)
  from x have "dropWhile idChar mid \<noteq> []"
    by (auto simp: dropWhile_eq_Nil_conv)
  then have "length (dropWhile idChar mid @ ''/start'') \<noteq> length ''/start''"
    by simp
  then have "dropWhile idChar mid @ ''/start'' \<noteq> ''/start''"
    by (metis (full_types))
  with d show ?thesis by simp
qed

lemma startMachineMatch_bad:
  assumes "\<not> list_all idChar mid"
  shows "startMachineMatch (''/machine/'' @ mid @ ''/start'') = None"
proof -
  have s: "stripPrefix ''/machine/'' (''/machine/'' @ mid @ ''/start'') = Some (mid @ ''/start'')"
    by (simp add: stripPrefix_def)
  show ?thesis
    unfolding startMachineMatch_def s using dropWhile_bad[OF assms] by simp
qed

section \<open>Reserving a machine\<close>

text \<open>
  C1. When the records of the store have distinct machine ids (the machine id is the
  store's key; no request changes the ids, \<open>handle_ids\<close>) and the location has an
  available machine, a reserve request takes
  the first available machine \<open>m\<close> of the store's list for the location: it answers
  \<open>OK\<close> with \<open>m\<close> changed to \<open>AWAITING_DROPOFF\<close> and bound to the requested job, which
  is the record the store holds for that id afterwards (the one read back) and the
  entry written to the cache under that id, over whatever was there. The calls are:
  list, update of the status, update of the job, read, cache put.
\<close>

theorem reserve_first_available:
  assumes "distinct (map machineId (table w))"
      and "filter (\<lambda>x. status x = AVAILABLE)
             (fst (listMachinesAtLocation (req_locationId request) w)) = m # rest"
  shows "let mid = machineId m;
             m' = m\<lparr>status := AWAITING_DROPOFF, currentJobId := Some (jobId request)\<rparr>;
             w' = snd (handleRequestMachine request w)
         in fst (handleRequestMachine request w) = \<lparr>statusCode = OK, machine = Some m'\<rparr> \<and>
            fst (getMachine mid w') = Some m' \<and>
            cache w' = (cache w)(mid \<mapsto> m') \<and>
            trace w' = trace w @
              [ListMachinesAtLocation (req_locationId request),
               UpdateMachineStatus mid AWAITING_DROPOFF,
               UpdateMachineJobId mid (jobId request),
               GetMachine mid,
               CachePut mid (Some m')]"
proof -
  let ?loc = "req_locationId request"
  let ?at = "filter (\<lambda>x. locationId x = ?loc) (table w)"
  have av: "filter (\<lambda>x. status x = AVAILABLE) ?at = m # rest"
    using assms(2) by (simp add: listMachinesAtLocation_def)
  then have "m \<in> set (filter (\<lambda>x. status x = AVAILABLE) ?at)" by simp
  then have mem: "m \<in> set (table w)" by simp
  have ne: "?at \<noteq> []"
  proof
    assume e: "?at = []"
    show False using av unfolding e by simp
  qed
  have fnd: "find (\<lambda>x. machineId x = machineId m) (table w) = Some m"
    using assms(1) mem by (rule find_member)
  have fnd': "find (\<lambda>x. machineId x = machineId m)
      (modify_machine (machineId m) (\<lambda>x. x\<lparr>currentJobId := Some (jobId request)\<rparr>)
        (modify_machine (machineId m) (\<lambda>x. x\<lparr>status := AWAITING_DROPOFF\<rparr>) (table w)))
      = Some (m\<lparr>status := AWAITING_DROPOFF, currentJobId := Some (jobId request)\<rparr>)"
    by (simp add: find_modify_same fnd)
  have av': "filter (\<lambda>x. locationId x = ?loc \<and> status x = AVAILABLE) (table w) = m # rest"
    using av by simp
  show ?thesis
    using ne by (simp add: handleRequestMachine_def collab_defs Let_def av' fnd')
qed

theorem reserve_first_available_witness:
  "distinct (map machineId (table ex_world)) \<and>
   filter (\<lambda>x. status x = AVAILABLE)
     (fst (listMachinesAtLocation ''loc-1'' ex_world)) = ex_m1 # [ex_m2] \<and>
   fst (handleRequestMachine (ex_req ''POST'' ''/machine/request'' ''loc-1'') ex_world) =
     \<lparr>statusCode = OK,
      machine = Some \<lparr>machineId = ''m1'', locationId = ''loc-1'', status = AWAITING_DROPOFF,
                      currentJobId = Some ''j1''\<rparr>\<rparr> \<and>
   cache (snd (handleRequestMachine (ex_req ''POST'' ''/machine/request'' ''loc-1'') ex_world))
     ''m1'' =
     Some \<lparr>machineId = ''m1'', locationId = ''loc-1'', status = AWAITING_DROPOFF,
           currentJobId = Some ''j1''\<rparr>"
proof -
  have d: "distinct (map machineId (table ex_world))"
    by (simp add: ex_defs)
  have f: "filter (\<lambda>x. status x = AVAILABLE)
             (fst (listMachinesAtLocation
                (req_locationId (ex_req ''POST'' ''/machine/request'' ''loc-1'')) ex_world))
           = ex_m1 # [ex_m2]"
    by (simp add: ex_defs listMachinesAtLocation_def)
  show ?thesis
    using d f reserve_first_available [OF d f]
    by (simp add: Let_def ex_req_def ex_m1_def)
qed

text \<open>
  C6. A reserve request for a location for which the store lists no machine answers
  \<open>NOT_FOUND\<close>; one for a location with machines of which none is available
  answers \<open>BAD_REQUEST\<close>. In both cases the only call is the listing: the store and
  the cache are as before.
\<close>

theorem reserve_failures:
  "(fst (listMachinesAtLocation (req_locationId request) w) = [] \<longrightarrow>
      handleRequestMachine request w =
        (\<lparr>statusCode = NOT_FOUND, machine = None\<rparr>,
         w\<lparr>trace := trace w @ [ListMachinesAtLocation (req_locationId request)]\<rparr>)) \<and>
   (fst (listMachinesAtLocation (req_locationId request) w) \<noteq> [] \<and>
    (\<forall>m \<in> set (fst (listMachinesAtLocation (req_locationId request) w)).
        status m \<noteq> AVAILABLE) \<longrightarrow>
      handleRequestMachine request w =
        (\<lparr>statusCode = BAD_REQUEST, machine = None\<rparr>,
         w\<lparr>trace := trace w @ [ListMachinesAtLocation (req_locationId request)]\<rparr>))"
  by (auto simp: handleRequestMachine_def listMachinesAtLocation_def record_call_def Let_def
        filter_empty_conv)

theorem reserve_failures_witness:
  "fst (listMachinesAtLocation ''loc-9'' ex_world) = [] \<and>
   handleRequestMachine (ex_req ''POST'' ''/machine/request'' ''loc-9'') ex_world =
     (\<lparr>statusCode = NOT_FOUND, machine = None\<rparr>,
      ex_world\<lparr>trace := [ListMachinesAtLocation ''loc-9'']\<rparr>) \<and>
   fst (listMachinesAtLocation ''loc-2'' ex_world) = [ex_m3, ex_m4] \<and>
   list_all (\<lambda>m. status m \<noteq> AVAILABLE) (fst (listMachinesAtLocation ''loc-2'' ex_world)) \<and>
   handleRequestMachine (ex_req ''POST'' ''/machine/request'' ''loc-2'') ex_world =
     (\<lparr>statusCode = BAD_REQUEST, machine = None\<rparr>,
      ex_world\<lparr>trace := [ListMachinesAtLocation ''loc-2'']\<rparr>)"
proof -
  have e: "fst (listMachinesAtLocation ''loc-9'' ex_world) = []"
    by (simp add: ex_defs listMachinesAtLocation_def)
  have b: "fst (listMachinesAtLocation ''loc-2'' ex_world) = [ex_m3, ex_m4]"
    by (simp add: ex_defs listMachinesAtLocation_def)
  have n: "\<forall>m \<in> set (fst (listMachinesAtLocation ''loc-2'' ex_world)). status m \<noteq> AVAILABLE"
    unfolding b by (simp add: ex_m3_def ex_m4_def)
  have t: "trace ex_world = []"
    by (simp add: ex_world_def)
  show ?thesis
    using e b n
      reserve_failures [of "ex_req ''POST'' ''/machine/request'' ''loc-9''" ex_world]
      reserve_failures [of "ex_req ''POST'' ''/machine/request'' ''loc-2''" ex_world]
    by (simp add: ex_req_def t list_all_iff)
qed

text \<open>
  C7. After a successful reserve the store has the same number of records, in the same
  order; exactly one of them differs from before, the selected machine; and every
  other record of the store is read back by its id as it was, in all of its fields.
\<close>

theorem reserve_changes_one_record:
  assumes "distinct (map machineId (table w))"
      and "filter (\<lambda>x. status x = AVAILABLE)
             (fst (listMachinesAtLocation (req_locationId request) w)) = m # rest"
  shows "let m' = m\<lparr>status := AWAITING_DROPOFF, currentJobId := Some (jobId request)\<rparr>;
             w' = snd (handleRequestMachine request w)
         in length (table w') = length (table w) \<and>
            filter (\<lambda>(a, b). a \<noteq> b) (zip (table w) (table w')) = [(m, m')] \<and>
            (\<forall>x \<in> set (table w). x \<noteq> m \<longrightarrow> fst (getMachine (machineId x) w') = Some x)"
proof -
  let ?loc = "req_locationId request"
  let ?f = "\<lambda>x. x\<lparr>status := AWAITING_DROPOFF, currentJobId := Some (jobId request)\<rparr>"
  let ?t' = "modify_machine (machineId m) ?f (table w)"
  have av: "filter (\<lambda>x. locationId x = ?loc \<and> status x = AVAILABLE) (table w) = m # rest"
    using assms(2) by (simp add: listMachinesAtLocation_def)
  then have "m \<in> set (filter (\<lambda>x. locationId x = ?loc \<and> status x = AVAILABLE) (table w))"
    by simp
  then have mem: "m \<in> set (table w)" and ms: "status m = AVAILABLE"
    and ml: "locationId m = ?loc" by simp_all
  have ne: "filter (\<lambda>x. locationId x = ?loc) (table w) \<noteq> []"
    using mem ml by (auto simp: filter_empty_conv)
  have tab: "table (snd (handleRequestMachine request w)) = ?t'"
    using ne by (simp add: handleRequestMachine_def collab_defs Let_def av modify_modify)
  have asmap: "?t' = map (\<lambda>x. if machineId x = machineId m then ?f x else x) (table w)"
    using assms(1) by (rule modify_as_map)
  have diff: "?f m \<noteq> m"
  proof
    assume "?f m = m"
    then have "status (?f m) = status m" by (rule arg_cong)
    with ms show False by simp
  qed
  have one: "filter (\<lambda>(a, b). a \<noteq> b) (zip (table w) ?t') = [(m, ?f m)]"
    unfolding asmap using assms(1) mem diff by (rule one_changed_pair)
  have others: "fst (getMachine (machineId x) (snd (handleRequestMachine request w))) = Some x"
    if "x \<in> set (table w)" "x \<noteq> m" for x
  proof -
    have "find (\<lambda>y. machineId y = machineId x) (table w) = Some x"
      using assms(1) that(1) by (rule find_member)
    moreover have "machineId x \<noteq> machineId m"
      using assms(1) that mem by (auto simp: distinct_map inj_on_def)
    ultimately show ?thesis
      by (simp add: getMachine_def tab find_modify_other)
  qed
  show ?thesis
    using one others by (simp add: Let_def tab asmap)
qed

theorem reserve_changes_one_record_witness:
  "distinct (map machineId (table ex_world)) \<and>
   filter (\<lambda>x. status x = AVAILABLE)
     (fst (listMachinesAtLocation ''loc-1'' ex_world)) = ex_m1 # [ex_m2] \<and>
   filter (\<lambda>(a, b). a \<noteq> b)
     (zip (table ex_world)
        (table (snd (handleRequestMachine (ex_req ''POST'' ''/machine/request'' ''loc-1'')
                  ex_world)))) =
     [(ex_m1, ex_m1\<lparr>status := AWAITING_DROPOFF, currentJobId := Some ''j1''\<rparr>)] \<and>
   fst (getMachine ''m2''
          (snd (handleRequestMachine (ex_req ''POST'' ''/machine/request'' ''loc-1'') ex_world))) =
     Some ex_m2"
proof -
  have d: "distinct (map machineId (table ex_world))"
    by (simp add: ex_defs)
  have f: "filter (\<lambda>x. status x = AVAILABLE)
             (fst (listMachinesAtLocation
                (req_locationId (ex_req ''POST'' ''/machine/request'' ''loc-1'')) ex_world))
           = ex_m1 # [ex_m2]"
    by (simp add: ex_defs listMachinesAtLocation_def)
  have m: "ex_m2 \<in> set (table ex_world)" "ex_m2 \<noteq> ex_m1" "machineId ex_m2 = ''m2''"
    by (simp_all add: ex_defs)
  let ?w' = "snd (handleRequestMachine (ex_req ''POST'' ''/machine/request'' ''loc-1'') ex_world)"
  have j: "jobId (ex_req ''POST'' ''/machine/request'' ''loc-1'') = ''j1''"
    by (simp add: ex_req_def)
  note r = reserve_changes_one_record [OF d f, unfolded Let_def j]
  from r have "\<forall>x \<in> set (table ex_world). x \<noteq> ex_m1 \<longrightarrow>
      fst (getMachine (machineId x) ?w') = Some x"
    by (rule conjunct2 [THEN conjunct2])
  with m have o: "fst (getMachine ''m2'' ?w') = Some ex_m2"
    by (metis (no_types, lifting))
  from r have p: "filter (\<lambda>(a, b). a \<noteq> b) (zip (table ex_world) (table ?w')) =
      [(ex_m1, ex_m1\<lparr>status := AWAITING_DROPOFF, currentJobId := Some ''j1''\<rparr>)]"
    by (rule conjunct2 [THEN conjunct1])
  from f have f': "filter (\<lambda>x. status x = AVAILABLE)
     (fst (listMachinesAtLocation ''loc-1'' ex_world)) = ex_m1 # [ex_m2]"
    by (simp add: ex_req_def)
  show ?thesis
    using d f' p o by (intro conjI)
qed

section \<open>Reading a machine\<close>

text \<open>
  C5. A get request for an id the cache holds answers \<open>OK\<close> with the cached record
  and calls nothing but the cache lookup. On a miss it reads the store: an id absent
  there answers \<open>NOT_FOUND\<close>; otherwise the fetched record is written to the cache
  under the id and returned with \<open>OK\<close>.
\<close>

theorem get_cache_aside:
  "(cache w mid = Some m \<longrightarrow>
      handleGetMachine mid w =
        (\<lparr>statusCode = OK, machine = Some m\<rparr>, w\<lparr>trace := trace w @ [CacheGet mid]\<rparr>)) \<and>
   (cache w mid = None \<and> fst (getMachine mid w) = None \<longrightarrow>
      handleGetMachine mid w =
        (\<lparr>statusCode = NOT_FOUND, machine = None\<rparr>,
         w\<lparr>trace := trace w @ [CacheGet mid, GetMachine mid]\<rparr>)) \<and>
   (cache w mid = None \<and> fst (getMachine mid w) = Some m \<longrightarrow>
      handleGetMachine mid w =
        (\<lparr>statusCode = OK, machine = Some m\<rparr>,
         w\<lparr>cache := (cache w)(mid \<mapsto> m),
           trace := trace w @ [CacheGet mid, GetMachine mid, CachePut mid (Some m)]\<rparr>))"
  by (auto simp: handleGetMachine_def collab_defs)

theorem get_cache_aside_witness:
  "cache ex_cached ''m3'' = Some ex_m3 \<and>
   handleGetMachine ''m3'' ex_cached =
     (\<lparr>statusCode = OK, machine = Some ex_m3\<rparr>, ex_cached\<lparr>trace := [CacheGet ''m3'']\<rparr>) \<and>
   cache ex_world ''m7'' = None \<and> fst (getMachine ''m7'' ex_world) = None \<and>
   handleGetMachine ''m7'' ex_world =
     (\<lparr>statusCode = NOT_FOUND, machine = None\<rparr>,
      ex_world\<lparr>trace := [CacheGet ''m7'', GetMachine ''m7'']\<rparr>) \<and>
   cache ex_world ''m2'' = None \<and> fst (getMachine ''m2'' ex_world) = Some ex_m2 \<and>
   handleGetMachine ''m2'' ex_world =
     (\<lparr>statusCode = OK, machine = Some ex_m2\<rparr>,
      ex_world\<lparr>cache := [''m2'' \<mapsto> ex_m2],
        trace := [CacheGet ''m2'', GetMachine ''m2'', CachePut ''m2'' (Some ex_m2)]\<rparr>)"
proof -
  have c: "cache ex_cached ''m3'' = Some ex_m3" "trace ex_cached = []"
    by (simp_all add: ex_defs)
  have s: "cache ex_world ''m7'' = None" "fst (getMachine ''m7'' ex_world) = None"
    "cache ex_world ''m2'' = None" "fst (getMachine ''m2'' ex_world) = Some ex_m2"
    "trace ex_world = []" "cache ex_world = Map.empty"
    by (simp_all add: ex_defs getMachine_def)
  show ?thesis
    using c s
      get_cache_aside [of ex_cached "''m3''" ex_m3]
      get_cache_aside [of ex_world "''m7''" ex_m3]
      get_cache_aside [of ex_world "''m2''" ex_m2]
    by simp
qed

text \<open>
  C8 (as stated it fails). For an id that neither the cache nor the store knows, the
  second of two get requests is not served from the cache: it reads the store again.
\<close>

theorem get_twice_unknown_id_counterexample:
  "fst (handleGetMachine ''m7'' ex_world) = \<lparr>statusCode = NOT_FOUND, machine = None\<rparr> \<and>
   fst (handleGetMachine ''m7'' (snd (handleGetMachine ''m7'' ex_world))) =
     \<lparr>statusCode = NOT_FOUND, machine = None\<rparr> \<and>
   trace (snd (handleGetMachine ''m7'' (snd (handleGetMachine ''m7'' ex_world)))) =
     trace (snd (handleGetMachine ''m7'' ex_world)) @ [CacheGet ''m7'', GetMachine ''m7'']"
  by (simp add: handleGetMachine_def collab_defs ex_defs)

text \<open>
  C8 (amended). Two get requests in a row for the same id leave the records of the
  store as they are and return the same answer; the first may write one cache entry,
  the second writes none. When the id is known to the cache or to the store, both
  answer \<open>OK\<close> with a record and the second is served by the cache lookup alone, with
  no read of the store; when it is known to neither, both answer \<open>NOT_FOUND\<close> and the
  second reads the store again.
\<close>

theorem get_twice:
  "let r1 = fst (handleGetMachine mid w); w1 = snd (handleGetMachine mid w);
       r2 = fst (handleGetMachine mid w1); w2 = snd (handleGetMachine mid w1)
   in table w1 = table w \<and> table w2 = table w \<and> r2 = r1 \<and>
      (cache w1 = cache w \<or> cache w1 = (cache w)(mid := machine r1)) \<and>
      cache w2 = cache w1 \<and>
      (cache w mid \<noteq> None \<or> fst (getMachine mid w) \<noteq> None \<longrightarrow>
         statusCode r1 = OK \<and> machine r1 \<noteq> None \<and> trace w2 = trace w1 @ [CacheGet mid]) \<and>
      (cache w mid = None \<and> fst (getMachine mid w) = None \<longrightarrow>
         statusCode r1 = NOT_FOUND \<and> trace w2 = trace w1 @ [CacheGet mid, GetMachine mid])"
  by (auto simp: handleGetMachine_def collab_defs Let_def split: option.splits)

theorem get_twice_witness:
  "cache ex_world ''m2'' = None \<and> fst (getMachine ''m2'' ex_world) = Some ex_m2 \<and>
   fst (handleGetMachine ''m2'' ex_world) = \<lparr>statusCode = OK, machine = Some ex_m2\<rparr> \<and>
   fst (handleGetMachine ''m2'' (snd (handleGetMachine ''m2'' ex_world))) =
     \<lparr>statusCode = OK, machine = Some ex_m2\<rparr> \<and>
   trace (snd (handleGetMachine ''m2'' (snd (handleGetMachine ''m2'' ex_world)))) =
     [CacheGet ''m2'', GetMachine ''m2'', CachePut ''m2'' (Some ex_m2), CacheGet ''m2''] \<and>
   table (snd (handleGetMachine ''m2'' (snd (handleGetMachine ''m2'' ex_world)))) =
     table ex_world \<and>
   cache ex_world ''m7'' = None \<and> fst (getMachine ''m7'' ex_world) = None \<and>
   statusCode (fst (handleGetMachine ''m7'' ex_world)) = NOT_FOUND"
proof -
  have s: "cache ex_world ''m2'' = None" "fst (getMachine ''m2'' ex_world) = Some ex_m2"
    "cache ex_world ''m7'' = None" "fst (getMachine ''m7'' ex_world) = None"
    by (simp_all add: ex_defs getMachine_def)
  have f: "handleGetMachine ''m2'' ex_world =
     (\<lparr>statusCode = OK, machine = Some ex_m2\<rparr>,
      ex_world\<lparr>cache := [''m2'' \<mapsto> ex_m2],
        trace := [CacheGet ''m2'', GetMachine ''m2'', CachePut ''m2'' (Some ex_m2)]\<rparr>)"
    by (simp add: handleGetMachine_def collab_defs ex_defs)
  show ?thesis
    using s get_twice [of "''m2''" ex_world] get_twice [of "''m7''" ex_world]
    by (simp add: Let_def f)
qed

section \<open>Starting a machine\<close>

text \<open>
  C2. A start request whose machine resolves, from the cache or on a cache miss from
  the store, to a snapshot with a status other than \<open>AWAITING_DROPOFF\<close> answers
  \<open>BAD_REQUEST\<close>; the machine controller is not called, and the store and the cache
  are as before: only the lookups are recorded.
\<close>

theorem start_rejects_other_status:
  assumes "cache w mid = Some m \<or> (cache w mid = None \<and> fst (getMachine mid w) = Some m)"
      and "status m \<noteq> AWAITING_DROPOFF"
  shows "handleStartMachine smc mid w =
           (Inr \<lparr>statusCode = BAD_REQUEST, machine = None\<rparr>,
            w\<lparr>trace := trace w @
                 (if cache w mid = None then [CacheGet mid, GetMachine mid] else [CacheGet mid])\<rparr>) \<and>
         controller_calls (trace (snd (handleStartMachine smc mid w))) = controller_calls (trace w)"
  using assms by (auto simp: handleStartMachine_def collab_defs controller_calls_def)

theorem start_rejects_other_status_witness:
  "cache ex_cached ''m3'' = Some ex_m3 \<and> status ex_m3 = RUNNING \<and>
   handleStartMachine (\<lambda>_. True) ''m3'' ex_cached =
     (Inr \<lparr>statusCode = BAD_REQUEST, machine = None\<rparr>, ex_cached\<lparr>trace := [CacheGet ''m3'']\<rparr>) \<and>
   cache ex_world ''m1'' = None \<and> fst (getMachine ''m1'' ex_world) = Some ex_m1 \<and>
   status ex_m1 = AVAILABLE \<and>
   handleStartMachine (\<lambda>_. True) ''m1'' ex_world =
     (Inr \<lparr>statusCode = BAD_REQUEST, machine = None\<rparr>,
      ex_world\<lparr>trace := [CacheGet ''m1'', GetMachine ''m1'']\<rparr>)"
proof -
  have c: "cache ex_cached ''m3'' = Some ex_m3" "status ex_m3 \<noteq> AWAITING_DROPOFF"
    "status ex_m3 = RUNNING" "trace ex_cached = []"
    by (simp_all add: ex_defs)
  have s: "cache ex_world ''m1'' = None" "fst (getMachine ''m1'' ex_world) = Some ex_m1"
    "status ex_m1 \<noteq> AWAITING_DROPOFF" "status ex_m1 = AVAILABLE" "trace ex_world = []"
    by (simp_all add: ex_defs getMachine_def)
  show ?thesis
    using c s
      start_rejects_other_status [of ex_cached "''m3''" ex_m3 "\<lambda>_. True"]
      start_rejects_other_status [of ex_world "''m1''" ex_m1 "\<lambda>_. True"]
    by simp
qed

text \<open>
  C3. A start request whose machine resolves to a snapshot with status
  \<open>AWAITING_DROPOFF\<close>, for a machine the store has a record \<open>s\<close> of (as it has for
  every cached id of a cache backed by the store, \<open>backed_machine_in_store\<close>), and
  whose controller call returns: the controller is called once, with the machine id; after
  it the status of the store's record is set to \<open>RUNNING\<close>, the record is read back,
  the cache entry of the id is overwritten with that record, and the answer is \<open>OK\<close>
  with it. Cache and store then hold the same record for the id.
\<close>

theorem start_awaiting_dropoff:
  assumes "cache w mid = Some m \<or> (cache w mid = None \<and> fst (getMachine mid w) = Some m)"
      and "status m = AWAITING_DROPOFF"
      and "smc mid"
      and "fst (getMachine mid w) = Some s"
  shows "let s' = s\<lparr>status := RUNNING\<rparr>;
             w' = snd (handleStartMachine smc mid w)
         in fst (handleStartMachine smc mid w) = Inr \<lparr>statusCode = OK, machine = Some s'\<rparr> \<and>
            controller_calls (trace w') = controller_calls (trace w) @ [mid] \<and>
            fst (getMachine mid w') = Some s' \<and>
            cache w' = (cache w)(mid \<mapsto> s') \<and>
            trace w' = trace w @
              (if cache w mid = None then [CacheGet mid, GetMachine mid] else [CacheGet mid]) @
              [StartCycle mid, UpdateMachineStatus mid RUNNING, GetMachine mid,
               CachePut mid (Some s')]"
proof -
  have st: "find (\<lambda>x. machineId x = mid) (table w) = Some s"
    using assms(4) by (simp add: getMachine_def)
  have fnd: "find (\<lambda>x. machineId x = mid)
               (modify_machine mid (\<lambda>x. x\<lparr>status := RUNNING\<rparr>) (table w)) =
             Some (s\<lparr>status := RUNNING\<rparr>)"
    by (simp add: find_modify_same st)
  from assms(1) show ?thesis
  proof
    assume "cache w mid = Some m"
    then show ?thesis
      using assms(2,3)
      by (simp add: handleStartMachine_def collab_defs controller_calls_def Let_def fnd)
  next
    assume "cache w mid = None \<and> fst (getMachine mid w) = Some m"
    then show ?thesis
      using assms(2,3) st
      by (simp add: handleStartMachine_def collab_defs controller_calls_def Let_def fnd)
  qed
qed

theorem start_awaiting_dropoff_witness:
  "cache ex_world ''m4'' = None \<and> fst (getMachine ''m4'' ex_world) = Some ex_m4 \<and>
   status ex_m4 = AWAITING_DROPOFF \<and>
   handleStartMachine (\<lambda>_. True) ''m4'' ex_world =
     (Inr \<lparr>statusCode = OK, machine = Some (ex_m4\<lparr>status := RUNNING\<rparr>)\<rparr>,
      \<lparr>table = [ex_m1, ex_m2, ex_m3, ex_m4\<lparr>status := RUNNING\<rparr>],
       cache = [''m4'' \<mapsto> ex_m4\<lparr>status := RUNNING\<rparr>],
       trace = [CacheGet ''m4'', GetMachine ''m4'', StartCycle ''m4'',
                UpdateMachineStatus ''m4'' RUNNING, GetMachine ''m4'',
                CachePut ''m4'' (Some (ex_m4\<lparr>status := RUNNING\<rparr>))]\<rparr>) \<and>
   cache ex_cached ''m4'' = Some ex_m4 \<and>
   fst (handleStartMachine (\<lambda>_. True) ''m4'' ex_cached) =
     Inr \<lparr>statusCode = OK, machine = Some (ex_m4\<lparr>status := RUNNING\<rparr>)\<rparr> \<and>
   trace (snd (handleStartMachine (\<lambda>_. True) ''m4'' ex_cached)) =
     [CacheGet ''m4'', StartCycle ''m4'', UpdateMachineStatus ''m4'' RUNNING, GetMachine ''m4'',
      CachePut ''m4'' (Some (ex_m4\<lparr>status := RUNNING\<rparr>))]"
proof -
  have s: "cache ex_world ''m4'' = None" "fst (getMachine ''m4'' ex_world) = Some ex_m4"
    "status ex_m4 = AWAITING_DROPOFF" "trace ex_world = []"
    by (simp_all add: ex_defs getMachine_def)
  have c: "cache ex_cached ''m4'' = Some ex_m4" "fst (getMachine ''m4'' ex_cached) = Some ex_m4"
    "trace ex_cached = []"
    by (simp_all add: ex_defs getMachine_def)
  have full: "handleStartMachine (\<lambda>_. True) ''m4'' ex_world =
     (Inr \<lparr>statusCode = OK, machine = Some (ex_m4\<lparr>status := RUNNING\<rparr>)\<rparr>,
      \<lparr>table = [ex_m1, ex_m2, ex_m3, ex_m4\<lparr>status := RUNNING\<rparr>],
       cache = [''m4'' \<mapsto> ex_m4\<lparr>status := RUNNING\<rparr>],
       trace = [CacheGet ''m4'', GetMachine ''m4'', StartCycle ''m4'',
                UpdateMachineStatus ''m4'' RUNNING, GetMachine ''m4'',
                CachePut ''m4'' (Some (ex_m4\<lparr>status := RUNNING\<rparr>))]\<rparr>)"
    by (simp add: handleStartMachine_def collab_defs ex_defs)
  show ?thesis
    using s c full
      start_awaiting_dropoff [of ex_world "''m4''" ex_m4 "\<lambda>_. True" ex_m4]
      start_awaiting_dropoff [of ex_cached "''m4''" ex_m4 "\<lambda>_. True" ex_m4]
    by (simp add: Let_def)
qed

text \<open>
  C4 (as stated it fails). A start request on a cache miss reads the store, but it does
  not write the fetched record to the cache as a get request does: for machine
  \<^verbatim>\<open>m1\<close>, available and not cached, start answers \<open>BAD_REQUEST\<close> and the cache still
  has no entry for it, where get leaves the record there.
\<close>

theorem start_miss_leaves_cache_counterexample:
  "cache ex_world ''m1'' = None \<and>
   fst (getMachine ''m1'' ex_world) = Some ex_m1 \<and>
   fst (handleStartMachine (\<lambda>_. True) ''m1'' ex_world) =
     Inr \<lparr>statusCode = BAD_REQUEST, machine = None\<rparr> \<and>
   cache (snd (handleStartMachine (\<lambda>_. True) ''m1'' ex_world)) ''m1'' = None \<and>
   cache (snd (handleGetMachine ''m1'' ex_world)) ''m1'' = Some ex_m1"
  by (simp add: handleStartMachine_def handleGetMachine_def collab_defs ex_defs)

text \<open>
  C4 (amended). A start request resolves its machine from the cache first and, on a
  miss, from the store, answering \<open>NOT_FOUND\<close> when the store has no record either; it
  does not populate the cache with the record it fetched: when the status check
  fails, with the snapshot taken from the cache or from the store, the world is as
  before except for the recorded lookups, and whenever the answer is not \<open>OK\<close> the
  cache is unchanged.
\<close>

theorem start_resolves_without_populating:
  "(cache w mid = Some m \<and> status m \<noteq> AWAITING_DROPOFF \<longrightarrow>
      handleStartMachine smc mid w =
        (Inr \<lparr>statusCode = BAD_REQUEST, machine = None\<rparr>,
         w\<lparr>trace := trace w @ [CacheGet mid]\<rparr>)) \<and>
   (cache w mid = None \<and> fst (getMachine mid w) = None \<longrightarrow>
      handleStartMachine smc mid w =
        (Inr \<lparr>statusCode = NOT_FOUND, machine = None\<rparr>,
         w\<lparr>trace := trace w @ [CacheGet mid, GetMachine mid]\<rparr>)) \<and>
   (cache w mid = None \<and> fst (getMachine mid w) = Some m \<and> status m \<noteq> AWAITING_DROPOFF \<longrightarrow>
      handleStartMachine smc mid w =
        (Inr \<lparr>statusCode = BAD_REQUEST, machine = None\<rparr>,
         w\<lparr>trace := trace w @ [CacheGet mid, GetMachine mid]\<rparr>)) \<and>
   ((\<forall>u. fst (handleStartMachine smc mid w) \<noteq> Inr \<lparr>statusCode = OK, machine = u\<rparr>) \<longrightarrow>
      cache (snd (handleStartMachine smc mid w)) = cache w)"
proof -
  have "(\<forall>u. fst (handleStartMachine smc mid w) \<noteq> Inr \<lparr>statusCode = OK, machine = u\<rparr>) \<longrightarrow>
      cache (snd (handleStartMachine smc mid w)) = cache w"
    by (auto simp: handleStartMachine_def collab_defs split: option.splits bool.splits)
  then show ?thesis
    by (auto simp: handleStartMachine_def collab_defs)
qed

theorem start_resolves_without_populating_witness:
  "cache ex_cached ''m3'' = Some ex_m3 \<and> status ex_m3 \<noteq> AWAITING_DROPOFF \<and>
   handleStartMachine (\<lambda>_. True) ''m3'' ex_cached =
     (Inr \<lparr>statusCode = BAD_REQUEST, machine = None\<rparr>, ex_cached\<lparr>trace := [CacheGet ''m3'']\<rparr>) \<and>
   cache ex_world ''m7'' = None \<and> fst (getMachine ''m7'' ex_world) = None \<and>
   handleStartMachine (\<lambda>_. True) ''m7'' ex_world =
     (Inr \<lparr>statusCode = NOT_FOUND, machine = None\<rparr>,
      ex_world\<lparr>trace := [CacheGet ''m7'', GetMachine ''m7'']\<rparr>) \<and>
   cache ex_world ''m1'' = None \<and> fst (getMachine ''m1'' ex_world) = Some ex_m1 \<and>
   status ex_m1 \<noteq> AWAITING_DROPOFF \<and>
   handleStartMachine (\<lambda>_. True) ''m1'' ex_world =
     (Inr \<lparr>statusCode = BAD_REQUEST, machine = None\<rparr>,
      ex_world\<lparr>trace := [CacheGet ''m1'', GetMachine ''m1'']\<rparr>) \<and>
   cache (snd (handleStartMachine (\<lambda>_. True) ''m1'' ex_world)) = cache ex_world"
proof -
  have c: "cache ex_cached ''m3'' = Some ex_m3" "status ex_m3 \<noteq> AWAITING_DROPOFF"
    "trace ex_cached = []"
    by (simp_all add: ex_defs)
  have s: "cache ex_world ''m7'' = None" "fst (getMachine ''m7'' ex_world) = None"
    "cache ex_world ''m1'' = None" "fst (getMachine ''m1'' ex_world) = Some ex_m1"
    "status ex_m1 \<noteq> AWAITING_DROPOFF" "trace ex_world = []"
    by (simp_all add: ex_defs getMachine_def)
  show ?thesis
    using c s
      start_resolves_without_populating [of ex_cached "''m3''" ex_m3 "\<lambda>_. True"]
      start_resolves_without_populating [of ex_world "''m7''" ex_m1 "\<lambda>_. True"]
      start_resolves_without_populating [of ex_world "''m1''" ex_m1 "\<lambda>_. True"]
    by simp
qed

section \<open>The gate and the dispatcher\<close>

text \<open>
  C9. When the identity provider rejects the token of a request, \<open>handle\<close> throws the
  \<open>UNAUTHORIZED\<close> object and nothing else happens: the only call ever made is the
  validation of the token, so no route is taken, and the store, the cache and the
  machine controller are not touched. This holds for every request, whatever its
  method and path.
\<close>

theorem unauthorized_before_dispatch:
  assumes "\<not> idp (token request)"
  shows "(\<exists>msg. fst (handle idp smc request w) = Inl (Thrown UNAUTHORIZED msg)) \<and>
         snd (handle idp smc request w) =
           w\<lparr>trace := trace w @ [ValidateToken (token request)]\<rparr>"
  using assms by (simp add: handle_def checkToken_def validateToken_def record_call_def)

theorem unauthorized_before_dispatch_witness:
  "\<not> ex_idp ''guess'' \<and>
   fst (handle ex_idp (\<lambda>_. True)
          ((ex_req ''POST'' ''/machine/request'' ''loc-1'')\<lparr>token := ''guess''\<rparr>) ex_world) =
     Inl (Thrown UNAUTHORIZED
            (''ERROR: checkToken implementation flagged as unauthorized'' @ [CHR 0x0A])) \<and>
   snd (handle ex_idp (\<lambda>_. True)
          ((ex_req ''POST'' ''/machine/request'' ''loc-1'')\<lparr>token := ''guess''\<rparr>) ex_world) =
     ex_world\<lparr>trace := [ValidateToken ''guess'']\<rparr> \<and>
   snd (handle ex_idp (\<lambda>_. True)
          ((ex_req ''GET'' ''/machine/m1'' ''loc-1'')\<lparr>token := ''guess''\<rparr>) ex_world) =
     ex_world\<lparr>trace := [ValidateToken ''guess'']\<rparr> \<and>
   snd (handle ex_idp (\<lambda>_. True)
          ((ex_req ''POST'' ''/machine/m4/start'' ''loc-1'')\<lparr>token := ''guess''\<rparr>) ex_world) =
     ex_world\<lparr>trace := [ValidateToken ''guess'']\<rparr> \<and>
   snd (handle ex_idp (\<lambda>_. True)
          ((ex_req ''PUT'' ''/nothing'' ''loc-1'')\<lparr>token := ''guess''\<rparr>) ex_world) =
     ex_world\<lparr>trace := [ValidateToken ''guess'']\<rparr>"
proof -
  have n: "\<not> ex_idp ''guess''"
    by (simp add: ex_idp_def)
  have t: "trace ex_world = []"
    by (simp add: ex_world_def)
  have m: "fst (handle ex_idp (\<lambda>_. True)
          ((ex_req ''POST'' ''/machine/request'' ''loc-1'')\<lparr>token := ''guess''\<rparr>) ex_world) =
     Inl (Thrown UNAUTHORIZED
            (''ERROR: checkToken implementation flagged as unauthorized'' @ [CHR 0x0A]))"
    using n by (simp add: handle_def checkToken_def validateToken_def ex_req_def)
  show ?thesis
    using n m
      unauthorized_before_dispatch [of ex_idp "(ex_req ''POST'' ''/machine/request'' ''loc-1'')\<lparr>token := ''guess''\<rparr>" "\<lambda>_. True" ex_world]
      unauthorized_before_dispatch [of ex_idp "(ex_req ''GET'' ''/machine/m1'' ''loc-1'')\<lparr>token := ''guess''\<rparr>" "\<lambda>_. True" ex_world]
      unauthorized_before_dispatch [of ex_idp "(ex_req ''POST'' ''/machine/m4/start'' ''loc-1'')\<lparr>token := ''guess''\<rparr>" "\<lambda>_. True" ex_world]
      unauthorized_before_dispatch [of ex_idp "(ex_req ''PUT'' ''/nothing'' ''loc-1'')\<lparr>token := ''guess''\<rparr>" "\<lambda>_. True" ex_world]
    by (simp add: ex_req_def t)
qed

text \<open>
  C10. An authenticated \<open>GET\<close> of \<^verbatim>\<open>/machine/{id}\<close> or \<open>POST\<close> of
  \<^verbatim>\<open>/machine/{id}/start\<close> whose id has a character outside \<^verbatim>\<open>[a-zA-Z0-9-]\<close>
  matches no route: \<open>handle\<close> answers with the \<open>INTERNAL_SERVER_ERROR\<close> fallback, and
  the only call made is the validation of the token, so neither the cache nor the
  store is asked about the id.
\<close>

theorem unmatched_id_internal_error:
  assumes "idp (token request)" and "\<not> list_all idChar mid"
      and "(req_method request = ''GET'' \<and> path request = ''/machine/'' @ mid) \<or>
           (req_method request = ''POST'' \<and> path request = ''/machine/'' @ mid @ ''/start'')"
  shows "handle idp smc request w =
           (Inr \<lparr>statusCode = INTERNAL_SERVER_ERROR, machine = None\<rparr>,
            w\<lparr>trace := trace w @ [ValidateToken (token request)]\<rparr>)"
proof -
  have ck: "checkToken idp (token request) w =
      (Inr (), w\<lparr>trace := trace w @ [ValidateToken (token request)]\<rparr>)"
    using assms(1) by (rule checkToken_accept)
  from assms(3) show ?thesis
  proof
    assume g: "req_method request = ''GET'' \<and> path request = ''/machine/'' @ mid"
    then show ?thesis
      using getMachineMatch_bad [OF assms(2)] by (simp add: handle_def ck)
  next
    assume p: "req_method request = ''POST'' \<and> path request = ''/machine/'' @ mid @ ''/start''"
    then show ?thesis
      using startMachineMatch_bad [OF assms(2)] start_suffix_ne [of mid]
      by (simp add: handle_def ck)
  qed
qed

theorem unmatched_id_internal_error_witness:
  "ex_idp ''secret'' \<and> \<not> list_all idChar ''m_1'' \<and> \<not> list_all idChar ''m.4'' \<and>
   handle ex_idp (\<lambda>_. True) (ex_req ''GET'' ''/machine/m_1'' ''loc-1'') ex_world =
     (Inr \<lparr>statusCode = INTERNAL_SERVER_ERROR, machine = None\<rparr>,
      ex_world\<lparr>trace := [ValidateToken ''secret'']\<rparr>) \<and>
   handle ex_idp (\<lambda>_. True) (ex_req ''POST'' ''/machine/m.4/start'' ''loc-1'') ex_world =
     (Inr \<lparr>statusCode = INTERNAL_SERVER_ERROR, machine = None\<rparr>,
      ex_world\<lparr>trace := [ValidateToken ''secret'']\<rparr>)"
proof -
  have a: "ex_idp (token (ex_req ''GET'' ''/machine/m_1'' ''loc-1''))"
    "ex_idp (token (ex_req ''POST'' ''/machine/m.4/start'' ''loc-1''))" "ex_idp ''secret''"
    by (simp_all add: ex_idp_def ex_req_def)
  have b: "\<not> list_all idChar ''m_1''" "\<not> list_all idChar ''m.4''"
    by (simp_all add: idChar_def)
  have g: "(req_method (ex_req ''GET'' ''/machine/m_1'' ''loc-1'') = ''GET'' \<and>
            path (ex_req ''GET'' ''/machine/m_1'' ''loc-1'') = ''/machine/'' @ ''m_1'') \<or>
           (req_method (ex_req ''GET'' ''/machine/m_1'' ''loc-1'') = ''POST'' \<and>
            path (ex_req ''GET'' ''/machine/m_1'' ''loc-1'') = ''/machine/'' @ ''m_1'' @ ''/start'')"
    by (simp add: ex_req_def)
  have p: "(req_method (ex_req ''POST'' ''/machine/m.4/start'' ''loc-1'') = ''GET'' \<and>
            path (ex_req ''POST'' ''/machine/m.4/start'' ''loc-1'') = ''/machine/'' @ ''m.4'') \<or>
           (req_method (ex_req ''POST'' ''/machine/m.4/start'' ''loc-1'') = ''POST'' \<and>
            path (ex_req ''POST'' ''/machine/m.4/start'' ''loc-1'') =
              ''/machine/'' @ ''m.4'' @ ''/start'')"
    by (simp add: ex_req_def)
  have t: "trace ex_world = []" "token (ex_req ''GET'' ''/machine/m_1'' ''loc-1'') = ''secret''"
    "token (ex_req ''POST'' ''/machine/m.4/start'' ''loc-1'') = ''secret''"
    by (simp_all add: ex_world_def ex_req_def)
  show ?thesis
    using a b
      unmatched_id_internal_error [of ex_idp "ex_req ''GET'' ''/machine/m_1'' ''loc-1''"
        "''m_1''" "\<lambda>_. True" ex_world, OF _ _ g]
      unmatched_id_internal_error [of ex_idp "ex_req ''POST'' ''/machine/m.4/start'' ''loc-1''"
        "''m.4''" "\<lambda>_. True" ex_world, OF _ _ p]
    by (simp add: t)
qed

end
